theory Spec2Isabelle
  imports Complex_Main "HOL-Library.Multiset"
begin

section \<open>Events and the event dispatcher (event\_dispatcher.h, event\_dispatcher.cpp)\<close>

text \<open>
  \<^verbatim>\<open>Event::Type\<close> is the enum of the four event kinds. An \<^verbatim>\<open>Event\<close> carries its type and
  a pair of frames (\<^verbatim>\<open>std::pair<cv::Mat, cv::Mat>\<close>); the frame type is the parameter \<open>'m\<close>,
  since the dispatcher never looks into a frame.
\<close>

datatype Type = InitialState | FrameCaptureReady | FrameDefoggerReady | FrameDetectionReady

record 'm Event =
  type :: Type
  data :: "'m \<times> 'm"

text \<open>
  The dispatcher's members. \<open>eventQueue\<close> is the \<^verbatim>\<open>std::queue\<close>, oldest event first.
  \<open>handlerContainer\<close> is the \<^verbatim>\<open>std::map\<close> from event type to handler. A handler is a
  \<^verbatim>\<open>std::function<void(const Event&)>\<close>: it is run for its effect, which is modelled as a
  function on a state \<open>'w\<close> outside the dispatcher (for the handlers this program registers,
  the frame queues of the stages). \<open>queueCondition\<close> stands for the condition variable: it
  counts the calls of \<^verbatim>\<open>notify_one\<close> and \<^verbatim>\<open>notify_all\<close> made on it, which is all a waiting
  thread can observe of it.
\<close>

record ('m, 'w) EventDispatcher =
  running :: bool
  eventQueue :: "'m Event list"
  queueCondition :: nat
  handlerContainer :: "Type \<rightharpoonup> ('m Event \<Rightarrow> 'w \<Rightarrow> 'w)"

text \<open>The constructor: \<^verbatim>\<open>running(true)\<close>, everything else empty.\<close>

definition EventDispatcher_new :: "('m, 'w) EventDispatcher" where
  "EventDispatcher_new =
     \<lparr>running = True, eventQueue = [], queueCondition = 0, handlerContainer = Map.empty\<rparr>"

text \<open>The destructor: \<^verbatim>\<open>running = false; queueCondition.notify_all();\<close>\<close>

definition EventDispatcher_delete :: "('m, 'w) EventDispatcher \<Rightarrow> ('m, 'w) EventDispatcher" where
  "EventDispatcher_delete d =
     d\<lparr>EventDispatcher.running := False,
       EventDispatcher.queueCondition := Suc (EventDispatcher.queueCondition d)\<rparr>"

text \<open>\<^verbatim>\<open>postEvent\<close>: push under the lock, then \<^verbatim>\<open>notify_one\<close>.\<close>

definition postEvent :: "('m, 'w) EventDispatcher \<Rightarrow> 'm Event \<Rightarrow> ('m, 'w) EventDispatcher" where
  "postEvent d event =
     d\<lparr>eventQueue := eventQueue d @ [event],
       EventDispatcher.queueCondition := Suc (EventDispatcher.queueCondition d)\<rparr>"

text \<open>\<^verbatim>\<open>registerHandler\<close>: \<^verbatim>\<open>handlerContainer[type] = handler\<close>.\<close>

definition registerHandler ::
  "('m, 'w) EventDispatcher \<Rightarrow> Type \<Rightarrow> ('m Event \<Rightarrow> 'w \<Rightarrow> 'w) \<Rightarrow> ('m, 'w) EventDispatcher" where
  "registerHandler d t handler = d\<lparr>handlerContainer := (handlerContainer d)(t \<mapsto> handler)\<rparr>"

text \<open>
  \<^verbatim>\<open>shutdownEventloop\<close>: \<^verbatim>\<open>handlerContainer.clear(); running.store(false);\<close> and nothing
  else; the condition variable is not touched.
\<close>

definition shutdownEventloop :: "('m, 'w) EventDispatcher \<Rightarrow> ('m, 'w) EventDispatcher" where
  "shutdownEventloop d = d\<lparr>handlerContainer := Map.empty, EventDispatcher.running := False\<rparr>"

text \<open>
  The inner loop of \<^verbatim>\<open>startEventloop\<close>, \<^verbatim>\<open>while (!eventQueue.empty())\<close>: take the front
  event, pop it, look its type up, call the handler if there is one and write the diagnostic
  to \<^verbatim>\<open>std::cerr\<close> otherwise. The state is the dispatcher, the state \<open>w\<close> the handlers act
  on, and the lines written to \<^verbatim>\<open>std::cerr\<close>.
\<close>

definition no_handler_msg :: string where
  "no_handler_msg = ''No handler registered for this event type!''"

function drainQueue ::
  "('m, 'w) EventDispatcher \<times> 'w \<times> string list \<Rightarrow> ('m, 'w) EventDispatcher \<times> 'w \<times> string list" where
  "drainQueue (d, w, cerr) =
     (case eventQueue d of
        [] \<Rightarrow> (d, w, cerr)
      | event # rest \<Rightarrow>
          (case handlerContainer d (type event) of
             Some handler \<Rightarrow> drainQueue (d\<lparr>eventQueue := rest\<rparr>, handler event w, cerr)
           | None \<Rightarrow> drainQueue (d\<lparr>eventQueue := rest\<rparr>, w, cerr @ [no_handler_msg])))"
  by pat_completeness auto
termination
  by (relation "measure (\<lambda>(d, w, cerr). length (eventQueue d))") auto

declare drainQueue.simps [simp del]

text \<open>
  A thread that runs a loop with a condition-variable wait either blocks in the wait or
  leaves the loop; \<open>Undefined\<close> is for a thread that has run into undefined behaviour
  (an access out of range). \<^verbatim>\<open>wait(lock, pred)\<close> is \<^verbatim>\<open>while (!pred()) wait(lock);\<close>: the predicate
  is tested first, and a thread whose predicate is false sleeps until the condition variable
  is notified, when it tests the predicate again.
\<close>

datatype 's outcome = Blocked 's | Exited 's | Undefined

datatype pc = LoopHead | InWait

text \<open>
  \<^verbatim>\<open>startEventloop\<close>, run from the program point \<open>pc\<close> until the thread blocks or returns.
  \<open>LoopHead\<close> is the test of \<^verbatim>\<open>while (running.load())\<close>; \<open>InWait\<close> is the evaluation of the
  wait predicate \<^verbatim>\<open>!eventQueue.empty() || !running\<close>, on entry to the wait and again after
  each notification.
\<close>

function eventloop ::
  "pc \<Rightarrow> ('m, 'w) EventDispatcher \<times> 'w \<times> string list
     \<Rightarrow> (('m, 'w) EventDispatcher \<times> 'w \<times> string list) outcome" where
  "eventloop LoopHead (d, w, cerr) =
     (if EventDispatcher.running d then eventloop InWait (d, w, cerr) else Exited (d, w, cerr))"
| "eventloop InWait (d, w, cerr) =
     (if \<not> (eventQueue d \<noteq> [] \<or> \<not> EventDispatcher.running d) then Blocked (d, w, cerr)
      else if \<not> EventDispatcher.running d then Exited (d, w, cerr)
      else eventloop LoopHead (drainQueue (d, w, cerr)))"
  by pat_completeness auto
termination
proof (relation "measure (\<lambda>(p, d, w, cerr). 2 * length (eventQueue d) + (if p = LoopHead then 1 else 0))")
  show "wf (measure (\<lambda>(p, d, w, cerr). 2 * length (eventQueue d) + (if p = LoopHead then 1 else 0)))"
    by simp
next
  fix d :: "('m, 'w) EventDispatcher" and w :: 'w and cerr :: "string list"
  assume "EventDispatcher.running d"
  then show "((InWait, d, w, cerr), (LoopHead, d, w, cerr))
    \<in> measure (\<lambda>(p, d, w, cerr). 2 * length (eventQueue d) + (if p = LoopHead then 1 else 0))"
    by simp
next
  fix d :: "('m, 'w) EventDispatcher" and w :: 'w and cerr :: "string list"
  assume a: "\<not> \<not> (eventQueue d \<noteq> [] \<or> \<not> EventDispatcher.running d)"
    and r: "\<not> \<not> EventDispatcher.running d"
  have empties: "eventQueue (fst (drainQueue s)) = []"
    for s :: "('m, 'w) EventDispatcher \<times> 'w \<times> string list"
    by (induction s rule: drainQueue.induct)
      (simp add: drainQueue.simps split: list.splits option.splits)
  from a r have "eventQueue d \<noteq> []" by simp
  then have "1 < 2 * length (eventQueue d)" by (cases "eventQueue d") simp_all
  moreover have "length (eventQueue (fst (drainQueue (d, w, cerr)))) = 0"
    using empties by simp
  ultimately show "((LoopHead, drainQueue (d, w, cerr)), (InWait, d, w, cerr))
    \<in> measure (\<lambda>(p, d, w, cerr). 2 * length (eventQueue d) + (if p = LoopHead then 1 else 0))"
    by (cases "drainQueue (d, w, cerr)") simp
qed

declare eventloop.simps [simp del]

definition startEventloop ::
  "('m, 'w) EventDispatcher \<times> 'w \<times> string list
     \<Rightarrow> (('m, 'w) EventDispatcher \<times> 'w \<times> string list) outcome" where
  "startEventloop s = eventloop LoopHead s"

text \<open>
  A call made on the dispatcher by another thread while the loop's thread is where \<open>r\<close>
  says. A thread blocked in the wait runs again only if the call notified the condition
  variable; it then re-evaluates the wait predicate. (A wake-up without a notification is
  allowed to an implementation but never promised, so no caller can count on one.) A thread
  that has left the loop stays out of it.
\<close>

fun called_by_other_thread ::
  "(('m, 'w) EventDispatcher \<Rightarrow> ('m, 'w) EventDispatcher)
     \<Rightarrow> (('m, 'w) EventDispatcher \<times> 'w \<times> string list) outcome
     \<Rightarrow> (('m, 'w) EventDispatcher \<times> 'w \<times> string list) outcome" where
  "called_by_other_thread f (Blocked (d, w, cerr)) =
     (if EventDispatcher.queueCondition (f d) = EventDispatcher.queueCondition d
      then Blocked (f d, w, cerr)
      else eventloop InWait (f d, w, cerr))"
| "called_by_other_thread f (Exited (d, w, cerr)) = Exited (f d, w, cerr)"
| "called_by_other_thread f Undefined = Undefined"

text \<open>What the inner loop does to one event, and to a list of them in order.\<close>

definition dispatch ::
  "('m, 'w) EventDispatcher \<Rightarrow> 'w \<times> string list \<Rightarrow> 'm Event \<Rightarrow> 'w \<times> string list" where
  "dispatch d s event =
     (case handlerContainer d (type event) of
        Some handler \<Rightarrow> (handler event (fst s), snd s)
      | None \<Rightarrow> (fst s, snd s @ [no_handler_msg]))"


section \<open>Stages (iprocessor.h, iprocessor.cpp)\<close>

text \<open>
  The members of \<^verbatim>\<open>IProcessor\<close> that the stage's own thread and the bus thread share: the
  running flag, the frame queue (oldest pair first) and the condition variable, again as the
  count of notifications. The reference to the dispatcher is passed explicitly.
\<close>

record 'm IProcessor =
  running :: bool
  frameQueue :: "('m \<times> 'm) list"
  queueCondition :: nat

definition IProcessor_new :: "'m IProcessor" where
  "IProcessor_new = \<lparr>running = False, frameQueue = [], queueCondition = 0\<rparr>"

text \<open>The four concrete stages and their \<^verbatim>\<open>getAccessibleType\<close> overrides.\<close>

datatype stage = VideoProcessor | Defogger | InferenceEngine | GUIRenderer

fun getAccessibleType :: "stage \<Rightarrow> Type" where
  "getAccessibleType VideoProcessor = InitialState"
| "getAccessibleType Defogger = FrameCaptureReady"
| "getAccessibleType InferenceEngine = FrameDefoggerReady"
| "getAccessibleType GUIRenderer = FrameDetectionReady"

text \<open>\<^verbatim>\<open>start\<close> sets the flag (and spawns the worker thread).\<close>

definition start :: "'m IProcessor \<Rightarrow> 'm IProcessor" where
  "start p = p\<lparr>IProcessor.running := True\<rparr>"

text \<open>\<^verbatim>\<open>stop\<close> clears the flag and calls \<^verbatim>\<open>notify_all\<close> (and joins the worker thread).\<close>

definition stop :: "'m IProcessor \<Rightarrow> 'm IProcessor" where
  "stop p = p\<lparr>IProcessor.running := False,
              IProcessor.queueCondition := Suc (IProcessor.queueCondition p)\<rparr>"

text \<open>
  \<^verbatim>\<open>handleEvent\<close>: return at once on \<^verbatim>\<open>InitialState\<close>; otherwise, if the event has the
  stage's accessible type, push its data and \<^verbatim>\<open>notify_one\<close>.
\<close>

definition handleEvent :: "stage \<Rightarrow> 'm Event \<Rightarrow> 'm IProcessor \<Rightarrow> 'm IProcessor" where
  "handleEvent k event p =
     (if type event = InitialState then p
      else if type event = getAccessibleType k
      then p\<lparr>frameQueue := frameQueue p @ [data event],
             IProcessor.queueCondition := Suc (IProcessor.queueCondition p)\<rparr>
      else p)"

section \<open>The defogger's loop (defogger.cpp)\<close>

text \<open>
  \<^verbatim>\<open>Defogger::processEvents\<close>, run from a program point until the thread blocks or returns;
  the program points are those of the dispatcher's loop. \<open>defog\<close> is the transform
  \<^verbatim>\<open>defog(frames.second, defoggedFrame)\<close> with its default arguments. \<open>hd\<close> and \<open>tl\<close> are
  \<^verbatim>\<open>front()\<close> and \<^verbatim>\<open>pop()\<close>; they are reached with a non-empty queue only.
\<close>

function Defogger_processEvents ::
  "('m \<Rightarrow> 'm) \<Rightarrow> pc \<Rightarrow> 'm IProcessor \<times> ('m, 'w) EventDispatcher
     \<Rightarrow> ('m IProcessor \<times> ('m, 'w) EventDispatcher) outcome" where
  "Defogger_processEvents defog LoopHead (p, d) =
     (if IProcessor.running p then Defogger_processEvents defog InWait (p, d) else Exited (p, d))"
| "Defogger_processEvents defog InWait (p, d) =
     (if \<not> (frameQueue p \<noteq> [] \<or> \<not> IProcessor.running p) then Blocked (p, d)
      else if \<not> IProcessor.running p then Exited (p, d)
      else
        (let frames = hd (frameQueue p);
             p' = p\<lparr>frameQueue := tl (frameQueue p)\<rparr>;
             defoggedFrame = defog (snd frames);
             d' = postEvent d \<lparr>type = FrameDefoggerReady, data = (fst frames, defoggedFrame)\<rparr>
         in Defogger_processEvents defog LoopHead (p', d')))"
  by pat_completeness auto
termination
  by (relation "measure (\<lambda>(defog, c, p, d). 2 * length (frameQueue p) + (if c = LoopHead then 1 else 0))")
    (auto simp: neq_Nil_conv)

declare Defogger_processEvents.simps [simp del]


section \<open>The detection stage (inference\_engine.cpp)\<close>

text \<open>
  A \<^verbatim>\<open>cv::Mat\<close> as its header and its elements in row-major order. \<^verbatim>\<open>cv::Rect\<close> and
  \<^verbatim>\<open>cv::Scalar\<close> as built by the stage. Floating-point values are read as the real numbers
  they denote.
\<close>

record 'p Mat =
  rows :: nat
  cols :: nat
  elems :: "'p list"

datatype Rect = Rect (rect_x: int) (rect_y: int) (rect_width: int) (rect_height: int)

datatype Scalar = Scalar int int int

text \<open>
  The library calls the stage makes on a frame are parameters: \<open>forward\<close> is the loaded
  network applied to a frame (\<^verbatim>\<open>blobFromImage\<close>, \<^verbatim>\<open>setInput\<close>, \<^verbatim>\<open>forward\<close>), giving the
  output matrices, each as the list of its rows; \<open>rectangle\<close> and \<open>putText\<close> draw on a frame;
  \<open>getTextSize\<close> gives the width and height of a label.
\<close>

record 'p imgproc =
  forward :: "'p Mat \<Rightarrow> real list list list"
  rectangle :: "'p Mat \<Rightarrow> Rect \<Rightarrow> Scalar \<Rightarrow> int \<Rightarrow> 'p Mat"
  getTextSize :: "string \<Rightarrow> int \<times> int"
  putText :: "'p Mat \<Rightarrow> string \<Rightarrow> int \<times> int \<Rightarrow> Scalar \<Rightarrow> 'p Mat"

text \<open>The cast \<^verbatim>\<open>(int)\<close> of a float rounds towards zero.\<close>

definition int_cast :: "real \<Rightarrow> int" where
  "int_cast r = (if 0 \<le> r then \<lfloor>r\<rfloor> else \<lceil>r\<rceil>)"

text \<open>
  \<^verbatim>\<open>std::max_element(first, last) - first\<close>: the offset of the first greatest element, and
  0 on an empty range.
\<close>

fun max_element :: "real list \<Rightarrow> nat" where
  "max_element [] = 0"
| "max_element (v # vs) =
     (if vs \<noteq> [] \<and> v < vs ! max_element vs then Suc (max_element vs) else 0)"

definition probability_index :: nat where
  "probability_index = 5"

text \<open>
  The body of the loop over the rows of one output matrix, on the state \<open>(boxes, frame)\<close>
  where \<open>frame\<close> is \<^verbatim>\<open>frames.second\<close>. \<open>None\<close> is an access out of range: a row with no
  column 5, or an object class with no entry in \<open>colors\<close> or \<open>classes\<close>.
\<close>

definition processRow ::
  "'p imgproc \<Rightarrow> real \<Rightarrow> string list \<Rightarrow> Scalar list \<Rightarrow> Rect list \<times> 'p Mat \<Rightarrow> real list
     \<Rightarrow> (Rect list \<times> 'p Mat) option" where
  "processRow cv confidenceThreshold classes colors s detection_i =
     (let boxes = fst s; frame = snd s in
      if length detection_i \<le> probability_index then None
      else
        (let objectClass = max_element (drop probability_index detection_i);
             confidence = detection_i ! (objectClass + probability_index)
         in if confidence > confidenceThreshold then
              (if objectClass < length colors \<and> objectClass < length classes then
                 (let x_center = detection_i ! 0 * real (cols frame);
                      y_center = detection_i ! 1 * real (rows frame);
                      width = detection_i ! 2 * real (cols frame);
                      height = detection_i ! 3 * real (rows frame);
                      box = Rect (int_cast (x_center - width / 2)) (int_cast (y_center - height / 2))
                              (int_cast width) (int_cast height);
                      frame1 = rectangle cv frame box (colors ! objectClass) 2;
                      label = classes ! objectClass;
                      labelSize = getTextSize cv label;
                      top = max (rect_y box) (snd labelSize);
                      frame2 = putText cv frame1 label (rect_x box, top) (colors ! objectClass)
                  in Some (boxes @ [box], frame2))
               else None)
            else Some (boxes, frame)))"

text \<open>A \<^verbatim>\<open>for\<close> loop whose body may fail: it stops at the first failure.\<close>

fun for_each :: "('s \<Rightarrow> 'a \<Rightarrow> 's option) \<Rightarrow> 's \<Rightarrow> 'a list \<Rightarrow> 's option" where
  "for_each body s [] = Some s"
| "for_each body s (a # as) = (case body s a of None \<Rightarrow> None | Some s' \<Rightarrow> for_each body s' as)"

text \<open>The nested iteration: over the output matrices, and over the rows of each.\<close>

definition processDetections ::
  "'p imgproc \<Rightarrow> real \<Rightarrow> string list \<Rightarrow> Scalar list \<Rightarrow> 'p Mat \<Rightarrow> real list list list
     \<Rightarrow> (Rect list \<times> 'p Mat) option" where
  "processDetections cv confidenceThreshold classes colors frame detections =
     for_each (\<lambda>s detection. for_each (processRow cv confidenceThreshold classes colors) s detection)
       ([], frame) detections"

text \<open>
  \<^verbatim>\<open>InferenceEngine::processEvents\<close> after the network has been loaded, in the same form as
  the defogger's loop.
\<close>

function InferenceEngine_processEvents ::
  "'p imgproc \<Rightarrow> real \<Rightarrow> string list \<Rightarrow> Scalar list \<Rightarrow> pc
     \<Rightarrow> 'p Mat IProcessor \<times> ('p Mat, 'w) EventDispatcher
     \<Rightarrow> ('p Mat IProcessor \<times> ('p Mat, 'w) EventDispatcher) outcome" where
  "InferenceEngine_processEvents cv confidenceThreshold classes colors LoopHead (p, d) =
     (if IProcessor.running p
      then InferenceEngine_processEvents cv confidenceThreshold classes colors InWait (p, d)
      else Exited (p, d))"
| "InferenceEngine_processEvents cv confidenceThreshold classes colors InWait (p, d) =
     (if \<not> (frameQueue p \<noteq> [] \<or> \<not> IProcessor.running p) then Blocked (p, d)
      else if \<not> IProcessor.running p then Exited (p, d)
      else
        (let frames = hd (frameQueue p);
             p' = p\<lparr>frameQueue := tl (frameQueue p)\<rparr>;
             detections = forward cv (snd frames)
         in case processDetections cv confidenceThreshold classes colors (snd frames) detections of
              None \<Rightarrow> Undefined
            | Some r \<Rightarrow>
                InferenceEngine_processEvents cv confidenceThreshold classes colors LoopHead
                  (p', postEvent d \<lparr>type = FrameDetectionReady, data = (fst frames, snd r)\<rparr>)))"
  by pat_completeness auto
termination
  by (relation "measure (\<lambda>(cv, t, cl, co, c, p, d).
        2 * length (frameQueue p) + (if c = LoopHead then 1 else 0))")
    (auto simp: neq_Nil_conv)

declare InferenceEngine_processEvents.simps [simp del]


section \<open>Atmospheric light (defogger.cpp, defogger.h)\<close>

text \<open>
  \<^verbatim>\<open>argsort\<close>: the indices \<open>0, ..., n - 1\<close> sorted by \<^verbatim>\<open>std::sort\<close> with the comparison
  \<^verbatim>\<open>pArray[tPos1] < pArray[tPos2]\<close>. The order \<^verbatim>\<open>std::sort\<close> gives to equal elements is
  not specified, so the library's sorting routine is a parameter \<open>std_sort\<close>. A float value
  is read as the real number it denotes; comparing two floats is exact.
\<close>

definition argsort :: "((nat \<Rightarrow> nat \<Rightarrow> bool) \<Rightarrow> nat list \<Rightarrow> nat list) \<Rightarrow> real list \<Rightarrow> nat list" where
  "argsort std_sort pArray =
     (let tArrayLen = length pArray;
          tArrayIndex = [0..<tArrayLen]
      in std_sort (\<lambda>tPos1 tPos2. pArray ! tPos1 < pArray ! tPos2) tArrayIndex)"

text \<open>
  What the library promises of \<^verbatim>\<open>std::sort\<close> when the comparison orders the elements by a
  key: the result is a permutation of the argument, and no element compares less than one
  before it.
\<close>

definition std_sort_contract :: "((nat \<Rightarrow> nat \<Rightarrow> bool) \<Rightarrow> nat list \<Rightarrow> nat list) \<Rightarrow> bool" where
  "std_sort_contract std_sort =
     (\<forall>(key :: nat \<Rightarrow> real) xs.
        mset (std_sort (\<lambda>i j. key i < key j) xs) = mset xs
        \<and> sorted_wrt (\<lambda>i j. \<not> key j < key i) (std_sort (\<lambda>i j. key i < key j) xs))"

text \<open>One sorting routine, by insertion, to run \<open>argsort\<close> on concrete arrays.\<close>

fun insert_sorted :: "('a \<Rightarrow> 'a \<Rightarrow> bool) \<Rightarrow> 'a \<Rightarrow> 'a list \<Rightarrow> 'a list" where
  "insert_sorted lt a [] = [a]"
| "insert_sorted lt a (b # bs) =
     (if lt a b then a # b # bs else b # insert_sorted lt a bs)"

definition insertion_sort :: "('a \<Rightarrow> 'a \<Rightarrow> bool) \<Rightarrow> 'a list \<Rightarrow> 'a list" where
  "insertion_sort lt as = foldr (insert_sorted lt) as []"

text \<open>
  A pixel of a \<^verbatim>\<open>CV_32FC3\<close> matrix and the array \<^verbatim>\<open>float pOutA[3]\<close> are triples.
  \<^verbatim>\<open>atmLight\<close> adds the selected pixels to \<open>pOutA\<close> as it finds it, one after the other,
  and divides by their number. Both operations are done in \<^verbatim>\<open>float\<close> and round: they are the
  parameters \<open>fadd\<close> (the \<^verbatim>\<open>+=\<close> of two floats) and \<open>fdiv\<close> (the \<^verbatim>\<open>/=\<close> of a float by the
  count converted to float, a conversion that is exact below \<open>2^24\<close>). \<open>None\<close> is a
  \<^verbatim>\<open>reshape\<close> that fails because the dark channel has another number of elements, or the
  iterator \<^verbatim>\<open>tIndices.begin() + (imgSize - tNumpx)\<close> before the beginning of the vector (an
  image with no pixel). Sizes and indices are natural numbers: the \<^verbatim>\<open>int\<close> arithmetic of the
  source does not overflow on a frame of fewer than \<open>2^31\<close> pixels.
\<close>

type_synonym Vec3f = "real \<times> real \<times> real"

definition atmLight ::
  "(real \<Rightarrow> real \<Rightarrow> real) \<Rightarrow> (real \<Rightarrow> real \<Rightarrow> real)
     \<Rightarrow> ((nat \<Rightarrow> nat \<Rightarrow> bool) \<Rightarrow> nat list \<Rightarrow> nat list)
     \<Rightarrow> Vec3f Mat \<Rightarrow> real Mat \<Rightarrow> Vec3f \<Rightarrow> Vec3f option" where
  "atmLight fadd fdiv std_sort pSource pDark pOutA =
     (let row = rows pSource;
          col = cols pSource;
          imgSize = row * col
      in if rows pDark * cols pDark \<noteq> imgSize then None
         else
           (let tDarkVector = elems pDark;
                tSrcVector = elems pSource;
                tNumpx = max (imgSize div 1000) 1;
                tIndices = argsort std_sort tDarkVector
            in if imgSize < tNumpx then None
               else
                 (let tDstIndices = drop (imgSize - tNumpx) tIndices;
                      acc = foldl (\<lambda>(a0, a1, a2) i.
                                (case tSrcVector ! (tDstIndices ! i) of
                                   (v0, v1, v2) \<Rightarrow> (fadd a0 v0, fadd a1 v1, fadd a2 v2)))
                              pOutA [0..<tNumpx]
                  in case acc of
                       (a0, a1, a2) \<Rightarrow>
                         Some (fdiv a0 (real tNumpx), fdiv a1 (real tNumpx), fdiv a2 (real tNumpx)))))"

text \<open>A matrix header agrees with its data.\<close>

definition Mat_ok :: "'p Mat \<Rightarrow> bool" where
  "Mat_ok m = (length (elems m) = rows m * cols m)"

section \<open>Command line (commandline\_args.h, commandline\_args.cpp, main.cpp)\<close>

record CommandLineArgs =
  modelPath :: string
  videoPath :: string
  confidenceThreshold :: real

text \<open>What the program writes, one constructor for each line of output.\<close>

datatype message =
    ValidThreshold real
  | InvalidThreshold
  | ValidUrl string
  | ValidFile string
  | DoesNotExist string
  | Usage string

text \<open>
  \<^verbatim>\<open>std::stod\<close> is a parameter: it gives a value, or throws \<^verbatim>\<open>std::invalid_argument\<close> or
  \<^verbatim>\<open>std::out_of_range\<close>. So is \<^verbatim>\<open>std::filesystem::exists\<close>, the state of the file system:
  it returns whether the path exists, or throws \<^verbatim>\<open>std::filesystem::filesystem_error\<close> when
  the status of the path cannot be determined (a name too long, a directory that may not be
  searched).
\<close>

datatype stod_result = stod_value real | invalid_argument | out_of_range

datatype exists_result = exists_returns bool | filesystem_error

text \<open>
  The loop of \<^verbatim>\<open>parseArguments\<close> over \<^verbatim>\<open>argv[1]\<close>, ..., \<^verbatim>\<open>argv[argc - 1]\<close>: an argument
  with a colon is split at its first colon and stored under its key.
\<close>

definition split_arg :: "string \<Rightarrow> (string \<times> string) option" where
  "split_arg arg =
     (if CHR '':'' \<in> set arg
      then Some (takeWhile (\<lambda>c. c \<noteq> CHR '':'') arg, tl (dropWhile (\<lambda>c. c \<noteq> CHR '':'') arg))
      else None)"

definition collect_args :: "string list \<Rightarrow> (string \<rightharpoonup> string)" where
  "collect_args argv =
     foldl (\<lambda>args arg. case split_arg arg of Some (key, val) \<Rightarrow> args(key \<mapsto> val) | None \<Rightarrow> args)
       Map.empty (tl argv)"

text \<open>
  \<^verbatim>\<open>parseArguments\<close>. Only \<^verbatim>\<open>std::invalid_argument\<close> is caught; on \<^verbatim>\<open>std::out_of_range\<close>
  no object is built (\<open>None\<close>).
\<close>

definition parseArguments ::
  "(string \<Rightarrow> stod_result) \<Rightarrow> string list \<Rightarrow> CommandLineArgs \<Rightarrow> message list \<times> CommandLineArgs option" where
  "parseArguments stod argv this =
     (let args = collect_args argv;
          this1 = (case args ''--modelPath'' of Some v \<Rightarrow> this\<lparr>modelPath := v\<rparr> | None \<Rightarrow> this);
          this2 = (case args ''--videoPath'' of Some v \<Rightarrow> this1\<lparr>videoPath := v\<rparr> | None \<Rightarrow> this1)
      in case args ''--threshold'' of
           None \<Rightarrow> ([], Some this2)
         | Some v \<Rightarrow>
             (case stod v of
                stod_value t \<Rightarrow> ([ValidThreshold t], Some (this2\<lparr>confidenceThreshold := t\<rparr>))
              | invalid_argument \<Rightarrow> ([InvalidThreshold], Some (this2\<lparr>confidenceThreshold := 3 / 10\<rparr>))
              | out_of_range \<Rightarrow> ([], None)))"

text \<open>The constructor: default member values, then \<^verbatim>\<open>parseArguments\<close>.\<close>

definition CommandLineArgs_new ::
  "(string \<Rightarrow> stod_result) \<Rightarrow> string list \<Rightarrow> message list \<times> CommandLineArgs option" where
  "CommandLineArgs_new stod argv =
     parseArguments stod argv \<lparr>modelPath = [], videoPath = [], confidenceThreshold = 3 / 10\<rparr>"

text \<open>
  \<^verbatim>\<open>isValidUrl\<close>: a whole-string match of \<^verbatim>\<open>^(https?|ftp)://[^\s/$.?#].[^\s]*$\<close>. The class
  \<^verbatim>\<open>\s\<close> is space, tab, line feed, vertical tab, form feed and carriage return; the dot
  matches any character but line feed and carriage return.
\<close>

definition isspace :: "char \<Rightarrow> bool" where
  "isspace c = (c \<in> set [CHR 0x20, CHR 0x09, CHR 0x0A, CHR 0x0B, CHR 0x0C, CHR 0x0D])"

fun strip_prefix :: "string \<Rightarrow> string \<Rightarrow> string option" where
  "strip_prefix [] s = Some s"
| "strip_prefix (a # as) [] = None"
| "strip_prefix (a # as) (b # bs) = (if a = b then strip_prefix as bs else None)"

definition url_rest :: "string \<Rightarrow> bool" where
  "url_rest r =
     (case r of
        c1 # c2 # cs \<Rightarrow>
          \<not> isspace c1 \<and> \<not> List.member ''/$.?#'' c1
          \<and> c2 \<noteq> CHR 0x0A \<and> c2 \<noteq> CHR 0x0D
          \<and> list_all (\<lambda>c. \<not> isspace c) cs
      | _ \<Rightarrow> False)"

definition isValidUrl :: "string \<Rightarrow> bool" where
  "isValidUrl url =
     list_ex (\<lambda>scheme. case strip_prefix (scheme @ ''://'') url of Some r \<Rightarrow> url_rest r | None \<Rightarrow> False)
       [''http'', ''https'', ''ftp'']"

text \<open>
  \<^verbatim>\<open>validatePath\<close>: the file system is asked only about a path that is not a URL. Nothing
  catches the exception of \<^verbatim>\<open>std::filesystem::exists\<close>: the result \<open>None\<close> is that
  exception leaving the function, before any line about the path is written.
\<close>

definition validatePath :: "(string \<Rightarrow> exists_result) \<Rightarrow> string \<Rightarrow> message list \<times> bool option" where
  "validatePath fileExists path =
     (if isValidUrl path then ([ValidUrl path], Some True)
      else
        (case fileExists path of
           exists_returns found \<Rightarrow>
             if found then ([ValidFile path], Some True) else ([DoesNotExist path], Some False)
         | filesystem_error \<Rightarrow> ([], None)))"

text \<open>\<^verbatim>\<open>validatePath(modelPath) && validatePath(videoPath)\<close>, the second only after the first.\<close>

definition validateArguments ::
  "(string \<Rightarrow> exists_result) \<Rightarrow> CommandLineArgs \<Rightarrow> message list \<times> bool option" where
  "validateArguments fileExists this =
     (case validatePath fileExists (modelPath this) of
        (out1, None) \<Rightarrow> (out1, None)
      | (out1, Some ok1) \<Rightarrow>
          if ok1 then (case validatePath fileExists (videoPath this) of (out2, r2) \<Rightarrow> (out1 @ out2, r2))
          else (out1, Some False))"

text \<open>
  \<^verbatim>\<open>main\<close> as the sequence of what it does, up to its call of \<^verbatim>\<open>startEventloop\<close> (after
  which come the four \<^verbatim>\<open>stop\<close> calls and \<^verbatim>\<open>return 0\<close>, if the loop returns): the
  lines it prints, the stages it constructs, the handlers it registers, the stages it starts.
  \<open>Terminate\<close> is \<^verbatim>\<open>std::terminate\<close> on an exception that nothing catches, from the
  constructor of the command-line object or from \<^verbatim>\<open>validateArguments\<close>.
  \<open>UndefinedBehaviour\<close> is \<^verbatim>\<open>printUsage(argv[0])\<close> when the program was started with no
  argument at all, not even its name: \<^verbatim>\<open>argv[0]\<close> is then a null pointer, which must not
  be written to a stream. A constructor call stands for all the constructor does, what it
  prints included. Running out of memory or of other resources in a library call is left
  out of the model.
\<close>

datatype action =
    Print message
  | New_VideoProcessor string
  | New_Defogger
  | New_InferenceEngine string string string string real
  | New_GUIRenderer
  | RegisterHandler Type stage
  | Start stage
  | StartEventloop
  | Return int
  | Terminate
  | UndefinedBehaviour

definition main ::
  "(string \<Rightarrow> exists_result) \<Rightarrow> (string \<Rightarrow> stod_result) \<Rightarrow> string list \<Rightarrow> action list" where
  "main fileExists stod argv =
     (case CommandLineArgs_new stod argv of
        (out, None) \<Rightarrow> map Print out @ [Terminate]
      | (out, Some cmdArgs) \<Rightarrow>
          (case validateArguments fileExists cmdArgs of
             (out', None) \<Rightarrow> map Print (out @ out') @ [Terminate]
           | (out', Some ok) \<Rightarrow>
               if \<not> ok then
                 (case argv of
                    [] \<Rightarrow> map Print (out @ out') @ [UndefinedBehaviour]
                  | programName # _ \<Rightarrow>
                      map Print (out @ out') @ [Print (Usage programName), Return 1])
               else map Print (out @ out') @
                 [New_VideoProcessor (videoPath cmdArgs),
                  New_Defogger,
                  New_InferenceEngine
                    (modelPath cmdArgs @ ''/yolov3.cfg'') (modelPath cmdArgs @ ''/yolov3.weights'')
                    (modelPath cmdArgs @ ''/coco_classes.txt'') (modelPath cmdArgs @ ''/coco_colors.txt'')
                    (confidenceThreshold cmdArgs),
                  New_GUIRenderer,
                  RegisterHandler FrameCaptureReady Defogger,
                  RegisterHandler FrameDefoggerReady InferenceEngine,
                  RegisterHandler FrameDetectionReady GUIRenderer,
                  Start GUIRenderer, Start InferenceEngine, Start Defogger, Start VideoProcessor,
                  StartEventloop]))"


text \<open>
  The stages \<^verbatim>\<open>main\<close> constructs, and its three calls of \<^verbatim>\<open>registerHandler\<close>: each handler
  is \<^verbatim>\<open>handleEvent\<close> bound to one stage, so the state the handlers act on is the four stages.
  No handler is registered for \<^verbatim>\<open>InitialState\<close>.
\<close>

record 'm stages =
  videoProcessor :: "'m IProcessor"
  defogger :: "'m IProcessor"
  inferenceEngine :: "'m IProcessor"
  guiRenderer :: "'m IProcessor"

definition main_registerHandlers ::
  "('m, 'm stages) EventDispatcher \<Rightarrow> ('m, 'm stages) EventDispatcher" where
  "main_registerHandlers dispatcher =
     registerHandler
       (registerHandler
          (registerHandler dispatcher FrameCaptureReady
             (\<lambda>event s. s\<lparr>defogger := handleEvent Defogger event (defogger s)\<rparr>))
          FrameDefoggerReady
          (\<lambda>event s. s\<lparr>inferenceEngine := handleEvent InferenceEngine event (inferenceEngine s)\<rparr>))
       FrameDetectionReady
       (\<lambda>event s. s\<lparr>guiRenderer := handleEvent GUIRenderer event (guiRenderer s)\<rparr>)"

section \<open>Concrete data\<close>

text \<open>
  A two by three frame and stand-ins for the library calls, to run the detection stage on:
  the network reports one row with class scores 1/2 and 1/10, drawing a rectangle adds 1 to
  every element and drawing a text adds 10.
\<close>

definition frame0 :: "nat Mat" where
  "frame0 = \<lparr>rows = 2, cols = 3, elems = [0, 0, 0, 0, 0, 0]\<rparr>"

definition cv0 :: "nat imgproc" where
  "cv0 = \<lparr>forward = (\<lambda>m. [[[1 / 2, 1 / 2, 1 / 5, 1 / 5, 9 / 10, 1 / 2, 1 / 10]]]),
           rectangle = (\<lambda>m box color thickness. m\<lparr>elems := map (\<lambda>v. v + 1) (elems m)\<rparr>),
           getTextSize = (\<lambda>label. (10 * int (length label), 12)),
           putText = (\<lambda>m label org color. m\<lparr>elems := map (\<lambda>v. v + 10) (elems m)\<rparr>)\<rparr>"

text \<open>Four stages as constructed, with frames that are numbers.\<close>

definition stages0 :: "int stages" where
  "stages0 = \<lparr>videoProcessor = IProcessor_new, defogger = IProcessor_new,
              inferenceEngine = IProcessor_new, guiRenderer = IProcessor_new\<rparr>"

text \<open>
  A frame of 40 by 50 pixels whose darkest channel grows with the index, its dark channel,
  and two operations that round (down to a multiple of 1/4) in the place of the float
  addition and division.
\<close>

definition fadd_coarse :: "real \<Rightarrow> real \<Rightarrow> real" where
  "fadd_coarse a b = of_int \<lfloor>4 * (a + b)\<rfloor> / 4"

definition fdiv_coarse :: "real \<Rightarrow> real \<Rightarrow> real" where
  "fdiv_coarse a b = of_int \<lfloor>4 * (a / b)\<rfloor> / 4"

definition source0 :: "Vec3f Mat" where
  "source0 = \<lparr>rows = 40, cols = 50,
               elems = map (\<lambda>i. (real i / 2000, (real i + 2000) / 4000, 1)) [0..<2000]\<rparr>"

definition dark0 :: "real Mat" where
  "dark0 = \<lparr>rows = 40, cols = 50, elems = map (\<lambda>i. real i / 2000) [0..<2000]\<rparr>"

section \<open>Properties of the dispatcher\<close>

text \<open>The inner loop empties the queue and treats its events one by one, oldest first.\<close>

lemma dispatch_eventQueue_update [simp]: "dispatch (d\<lparr>eventQueue := q\<rparr>) = dispatch d"
  by (intro ext) (simp add: dispatch_def)

lemma drainQueue_foldl:
  "eventQueue d = q \<Longrightarrow>
   drainQueue (d, w, cerr) =
     (case foldl (dispatch d) (w, cerr) q of (w', cerr') \<Rightarrow> (d\<lparr>eventQueue := []\<rparr>, w', cerr'))"
proof (induction q arbitrary: d w cerr)
  case Nil
  then show ?case by (simp add: drainQueue.simps)
next
  case (Cons e q)
  have tail: "eventQueue (d\<lparr>eventQueue := q\<rparr>) = q" by simp
  show ?case
  proof (cases "handlerContainer d (type e)")
    case None
    then show ?thesis
      using Cons.prems Cons.IH [OF tail, of w "cerr @ [no_handler_msg]"]
      by (simp add: drainQueue.simps [of d] dispatch_def)
  next
    case (Some h)
    then show ?thesis
      using Cons.prems Cons.IH [OF tail, of "h e w" cerr]
      by (simp add: drainQueue.simps [of d] dispatch_def)
  qed
qed

lemma eventloop_running:
  assumes "EventDispatcher.running d"
  shows "eventloop LoopHead (d, w, cerr) =
     (case foldl (dispatch d) (w, cerr) (eventQueue d) of
        (w', cerr') \<Rightarrow> Blocked (d\<lparr>eventQueue := []\<rparr>, w', cerr'))"
proof (cases "eventQueue d = []")
  case True
  then have "d\<lparr>eventQueue := []\<rparr> = d" by simp
  with True assms show ?thesis by (simp add: eventloop.simps)
next
  case False
  obtain w' cerr' where f: "foldl (dispatch d) (w, cerr) (eventQueue d) = (w', cerr')"
    by (cases "foldl (dispatch d) (w, cerr) (eventQueue d)")
  have dq: "drainQueue (d, w, cerr) = (d\<lparr>eventQueue := []\<rparr>, w', cerr')"
    using drainQueue_foldl [OF refl, of d w cerr] f by simp
  show ?thesis using assms False
    by (simp add: eventloop.simps [of d] dq f eventloop.simps [of "d\<lparr>eventQueue := []\<rparr>"])
qed

lemma foldl_postEvent:
  "foldl postEvent d es =
     d\<lparr>eventQueue := eventQueue d @ es,
       EventDispatcher.queueCondition := EventDispatcher.queueCondition d + length es\<rparr>"
  by (induction es arbitrary: d) (simp_all add: postEvent_def)

lemma foldl_dispatch_handled:
  "\<forall>e \<in> set es. handlerContainer d (type e) \<noteq> None \<Longrightarrow>
   foldl (dispatch d) (w, cerr) es =
     (foldl (\<lambda>w e. the (handlerContainer d (type e)) e w) w es, cerr)"
  by (induction es arbitrary: w) (auto simp: dispatch_def)


lemma eventloop_InWait_running:
  assumes "EventDispatcher.running d"
  shows "eventloop InWait (d, w, cerr) =
     (case foldl (dispatch d) (w, cerr) (eventQueue d) of
        (w', cerr') \<Rightarrow> Blocked (d\<lparr>eventQueue := []\<rparr>, w', cerr'))"
  using eventloop_running [OF assms, of w cerr] assms by (simp add: eventloop.simps(1))

lemma post_while_blocked:
  assumes "EventDispatcher.running d" and "eventQueue d = []"
    and "handlerContainer d (type e) = Some h"
  shows "called_by_other_thread (\<lambda>d. postEvent d e) (Blocked (d, w, cerr)) =
     Blocked (d\<lparr>EventDispatcher.queueCondition := Suc (EventDispatcher.queueCondition d)\<rparr>,
              h e w, cerr)"
proof -
  have r: "EventDispatcher.running (postEvent d e)" using assms(1) by (simp add: postEvent_def)
  have "dispatch (postEvent d e) (w, cerr) e = (h e w, cerr)"
    using assms(3) by (simp add: dispatch_def postEvent_def)
  moreover have "eventQueue (postEvent d e) = [e]" using assms(2) by (simp add: postEvent_def)
  moreover have "(postEvent d e)\<lparr>eventQueue := []\<rparr> =
      d\<lparr>EventDispatcher.queueCondition := Suc (EventDispatcher.queueCondition d)\<rparr>"
    using assms(2) by (simp add: postEvent_def)
  ultimately have "eventloop InWait (postEvent d e, w, cerr) =
      Blocked (d\<lparr>EventDispatcher.queueCondition := Suc (EventDispatcher.queueCondition d)\<rparr>,
               h e w, cerr)"
    by (simp add: eventloop_InWait_running [OF r])
  moreover have "called_by_other_thread (\<lambda>d. postEvent d e) (Blocked (d, w, cerr)) =
      eventloop InWait (postEvent d e, w, cerr)"
    by (simp add: postEvent_def)
  ultimately show ?thesis by simp
qed

lemma posts_while_blocked:
  assumes "EventDispatcher.running d" and "eventQueue d = []"
    and "\<forall>e \<in> set es. handlerContainer d (type e) \<noteq> None"
  shows "foldl (\<lambda>r e. called_by_other_thread (\<lambda>d. postEvent d e) r) (Blocked (d, w, cerr)) es =
     Blocked (d\<lparr>EventDispatcher.queueCondition := EventDispatcher.queueCondition d + length es\<rparr>,
              foldl (\<lambda>w e. the (handlerContainer d (type e)) e w) w es, cerr)"
  using assms
proof (induction es arbitrary: d w)
  case Nil
  then show ?case by simp
next
  case (Cons e es)
  from Cons.prems(3) obtain h where h: "handlerContainer d (type e) = Some h" by auto
  let ?d = "d\<lparr>EventDispatcher.queueCondition := Suc (EventDispatcher.queueCondition d)\<rparr>"
  have "foldl (\<lambda>r e. called_by_other_thread (\<lambda>d. postEvent d e) r) (Blocked (?d, h e w, cerr)) es =
     Blocked (?d\<lparr>EventDispatcher.queueCondition := EventDispatcher.queueCondition ?d + length es\<rparr>,
              foldl (\<lambda>w e. the (handlerContainer ?d (type e)) e w) (h e w) es, cerr)"
    using Cons.prems by (intro Cons.IH) simp_all
  then show ?case
    using post_while_blocked [OF Cons.prems(1,2) h, of w cerr] h by simp
qed

text \<open>
  Claim C1. Events whose types all have a handler are posted, \<open>es\<close> before the loop is
  started and \<open>es'\<close> one by one while the loop waits. Then the handlers have been called on
  exactly these events, once each and in the order of posting (the state the handlers act on
  is the result of running, from left to right over \<open>es @ es'\<close>, the handler registered for
  each event's type on that event), nothing has been written to \<^verbatim>\<open>std::cerr\<close>, the queue is
  empty and the loop waits for more.
\<close>

theorem startEventloop_fifo:
  assumes "EventDispatcher.running d" and "eventQueue d = []"
    and "\<forall>e \<in> set (es @ es'). handlerContainer d (type e) \<noteq> None"
  shows "foldl (\<lambda>r e. called_by_other_thread (\<lambda>d. postEvent d e) r)
           (startEventloop (foldl postEvent d es, w, cerr)) es' =
     Blocked (d\<lparr>EventDispatcher.queueCondition :=
                  EventDispatcher.queueCondition d + length (es @ es')\<rparr>,
              foldl (\<lambda>w e. the (handlerContainer d (type e)) e w) w (es @ es'), cerr)"
proof -
  let ?d = "foldl postEvent d es"
  let ?d1 = "d\<lparr>EventDispatcher.queueCondition := EventDispatcher.queueCondition d + length es\<rparr>"
  have q: "eventQueue ?d = es" and r: "EventDispatcher.running ?d"
    and h: "dispatch ?d = dispatch d"
    using assms by (simp_all add: foldl_postEvent dispatch_def fun_eq_iff)
  have e: "?d\<lparr>eventQueue := []\<rparr> = ?d1"
    using assms(2) by (simp add: foldl_postEvent)
  have handled: "\<forall>e \<in> set es. handlerContainer d (type e) \<noteq> None" using assms(3) by simp
  have first: "startEventloop (?d, w, cerr) =
      Blocked (?d1, foldl (\<lambda>w e. the (handlerContainer d (type e)) e w) w es, cerr)"
    unfolding startEventloop_def eventloop_running [OF r] q h e
    by (simp add: foldl_dispatch_handled [OF handled])
  have "foldl (\<lambda>r e. called_by_other_thread (\<lambda>d. postEvent d e) r)
      (Blocked (?d1, foldl (\<lambda>w e. the (handlerContainer d (type e)) e w) w es, cerr)) es' =
     Blocked (?d1\<lparr>EventDispatcher.queueCondition := EventDispatcher.queueCondition ?d1 + length es'\<rparr>,
       foldl (\<lambda>w e. the (handlerContainer ?d1 (type e)) e w)
         (foldl (\<lambda>w e. the (handlerContainer d (type e)) e w) w es) es', cerr)"
    using assms by (intro posts_while_blocked) simp_all
  then show ?thesis by (simp add: first add.assoc)
qed

theorem startEventloop_fifo_witness:
  "foldl (\<lambda>r e. called_by_other_thread (\<lambda>d. postEvent d e) r)
     (startEventloop
        (foldl postEvent (main_registerHandlers EventDispatcher_new)
           [\<lparr>type = FrameCaptureReady, data = (10, 10)\<rparr>, \<lparr>type = FrameDefoggerReady, data = (11, 11)\<rparr>],
         stages0, []))
     [\<lparr>type = FrameCaptureReady, data = (12, 12)\<rparr>] =
   Blocked
     ((main_registerHandlers EventDispatcher_new)\<lparr>EventDispatcher.queueCondition := 3\<rparr>,
      stages0
        \<lparr>defogger := \<lparr>running = False, frameQueue = [(10, 10), (12, 12)], queueCondition = 2\<rparr>,
         inferenceEngine := \<lparr>running = False, frameQueue = [(11, 11)], queueCondition = 1\<rparr>\<rparr>,
      [])"
  using startEventloop_fifo [of "main_registerHandlers EventDispatcher_new"
      "[\<lparr>type = FrameCaptureReady, data = (10, 10)\<rparr>, \<lparr>type = FrameDefoggerReady, data = (11, 11)\<rparr>]"
      "[\<lparr>type = FrameCaptureReady, data = (12, 12)\<rparr>]" stages0 "[]"]
  by (simp add: main_registerHandlers_def registerHandler_def EventDispatcher_new_def stages0_def
      handleEvent_def IProcessor_new_def)

text \<open>
  Claim C6. The queue holds an event whose type has no handler, between the events \<open>before\<close>
  and \<open>after\<close>. The loop treats \<open>before\<close>, writes the diagnostic for the event and leaves
  the handlers' state as it is, goes on to treat \<open>after\<close>, and then waits with an empty
  queue: it has neither stalled on the event nor returned.
\<close>

theorem startEventloop_unhandled:
  assumes "EventDispatcher.running d" and "eventQueue d = before @ event # after"
    and "handlerContainer d (type event) = None"
  shows "startEventloop (d, w, cerr) =
     (case foldl (dispatch d) (w, cerr) before of
        (w1, cerr1) \<Rightarrow>
          (case foldl (dispatch d) (w1, cerr1 @ [no_handler_msg]) after of
             (w2, cerr2) \<Rightarrow> Blocked (d\<lparr>eventQueue := []\<rparr>, w2, cerr2)))"
  unfolding startEventloop_def eventloop_running [OF assms(1)] assms(2)
  using assms(3) by (simp add: dispatch_def split: prod.splits)

theorem startEventloop_unhandled_witness:
  "startEventloop
     ((main_registerHandlers EventDispatcher_new)\<lparr>eventQueue :=
        [\<lparr>type = FrameCaptureReady, data = (1, 1)\<rparr>, \<lparr>type = InitialState, data = (2, 2)\<rparr>,
         \<lparr>type = FrameCaptureReady, data = (3, 3)\<rparr>]\<rparr>, stages0, []) =
   Blocked
     (main_registerHandlers EventDispatcher_new,
      stages0\<lparr>defogger := \<lparr>running = False, frameQueue = [(1, 1), (3, 3)], queueCondition = 2\<rparr>\<rparr>,
      [no_handler_msg])"
  using startEventloop_unhandled [of "(main_registerHandlers EventDispatcher_new)\<lparr>eventQueue :=
        [\<lparr>type = FrameCaptureReady, data = (1, 1)\<rparr>, \<lparr>type = InitialState, data = (2, 2)\<rparr>,
         \<lparr>type = FrameCaptureReady, data = (3, 3)\<rparr>]\<rparr>"
      "[\<lparr>type = FrameCaptureReady, data = (1, 1)\<rparr>]" "\<lparr>type = InitialState, data = (2, 2)\<rparr>"
      "[\<lparr>type = FrameCaptureReady, data = (3, 3)\<rparr>]" stages0 "[]"]
  by (simp add: main_registerHandlers_def registerHandler_def EventDispatcher_new_def dispatch_def
      stages0_def handleEvent_def IProcessor_new_def)

text \<open>
  Claim C2. \<^verbatim>\<open>shutdownEventloop\<close> clears the running flag and the handler table, but it does
  not notify the condition variable: a loop blocked in its wait (as the loop of a dispatcher
  with an empty queue is) is still blocked after the call, whatever the dispatcher's state.
  The destructor, which does call \<^verbatim>\<open>notify_all\<close>, makes the same loop return.
\<close>

theorem shutdownEventloop_leaves_loop_blocked:
  "startEventloop (EventDispatcher_new, w, cerr) = Blocked (EventDispatcher_new, w, cerr)
   \<and> \<not> EventDispatcher.running (shutdownEventloop d)
   \<and> handlerContainer (shutdownEventloop d) = Map.empty
   \<and> EventDispatcher.queueCondition (shutdownEventloop d) = EventDispatcher.queueCondition d
   \<and> called_by_other_thread shutdownEventloop (Blocked (d, w, cerr)) =
       Blocked (shutdownEventloop d, w, cerr)
   \<and> called_by_other_thread EventDispatcher_delete (Blocked (d, w, cerr)) =
       Exited (EventDispatcher_delete d, w, cerr)"
  by (simp add: startEventloop_def eventloop.simps EventDispatcher_new_def shutdownEventloop_def
      EventDispatcher_delete_def)


section \<open>Properties of the stages\<close>

text \<open>
  One pass of a stage's loop, from either program point: a stage that is not running leaves
  the loop with its state as it is; a running stage with an empty queue blocks; a running
  stage with a non-empty queue pops the oldest pair, transforms its second frame, posts the
  result and is back at the head of the loop. A whole run of a running stage empties the
  queue and posts one event for each pair, in order.
\<close>

lemma Defogger_stopped:
  "\<not> IProcessor.running p \<Longrightarrow> Defogger_processEvents defog c (p, d) = Exited (p, d)"
  by (cases c) (simp_all add: Defogger_processEvents.simps)

lemma Defogger_idle:
  "IProcessor.running p \<Longrightarrow> frameQueue p = [] \<Longrightarrow>
   Defogger_processEvents defog c (p, d) = Blocked (p, d)"
  by (cases c) (simp_all add: Defogger_processEvents.simps)

lemma Defogger_step:
  "IProcessor.running p \<Longrightarrow> frameQueue p = frames # rest \<Longrightarrow>
   Defogger_processEvents defog c (p, d) =
     Defogger_processEvents defog LoopHead
       (p\<lparr>frameQueue := rest\<rparr>,
        postEvent d \<lparr>type = FrameDefoggerReady, data = (fst frames, defog (snd frames))\<rparr>)"
  by (cases c) (simp_all add: Defogger_processEvents.simps [of defog p])

lemma Defogger_run:
  "IProcessor.running p \<Longrightarrow> frameQueue p = q \<Longrightarrow>
   Defogger_processEvents defog c (p, d) =
     Blocked (p\<lparr>frameQueue := []\<rparr>,
       foldl postEvent d
         (map (\<lambda>frames. \<lparr>type = FrameDefoggerReady, data = (fst frames, defog (snd frames))\<rparr>) q))"
proof (induction q arbitrary: p d c)
  case Nil
  then show ?case by (simp add: Defogger_idle)
next
  case (Cons frames rest)
  have "IProcessor.running (p\<lparr>frameQueue := rest\<rparr>)" "frameQueue (p\<lparr>frameQueue := rest\<rparr>) = rest"
    using Cons.prems by simp_all
  from Cons.IH [OF this] show ?case
    by (simp add: Defogger_step [OF Cons.prems])
qed

lemma InferenceEngine_stopped:
  "\<not> IProcessor.running p \<Longrightarrow>
   InferenceEngine_processEvents cv t cl co c (p, d) = Exited (p, d)"
  by (cases c) (simp_all add: InferenceEngine_processEvents.simps)

lemma InferenceEngine_idle:
  "IProcessor.running p \<Longrightarrow> frameQueue p = [] \<Longrightarrow>
   InferenceEngine_processEvents cv t cl co c (p, d) = Blocked (p, d)"
  by (cases c) (simp_all add: InferenceEngine_processEvents.simps)

lemma InferenceEngine_step:
  "IProcessor.running p \<Longrightarrow> frameQueue p = frames # rest \<Longrightarrow>
   InferenceEngine_processEvents cv t cl co c (p, d) =
     (case processDetections cv t cl co (snd frames) (forward cv (snd frames)) of
        None \<Rightarrow> Undefined
      | Some r \<Rightarrow>
          InferenceEngine_processEvents cv t cl co LoopHead
            (p\<lparr>frameQueue := rest\<rparr>,
             postEvent d \<lparr>type = FrameDetectionReady, data = (fst frames, snd r)\<rparr>))"
  by (cases c) (simp_all add: InferenceEngine_processEvents.simps [of cv t cl co p])

lemma InferenceEngine_run:
  "IProcessor.running p \<Longrightarrow> frameQueue p = q \<Longrightarrow>
   \<forall>frames \<in> set q. processDetections cv t cl co (snd frames) (forward cv (snd frames)) \<noteq> None \<Longrightarrow>
   InferenceEngine_processEvents cv t cl co c (p, d) =
     Blocked (p\<lparr>frameQueue := []\<rparr>,
       foldl postEvent d
         (map (\<lambda>frames. \<lparr>type = FrameDetectionReady,
                 data = (fst frames,
                   snd (the (processDetections cv t cl co (snd frames) (forward cv (snd frames)))))\<rparr>) q))"
proof (induction q arbitrary: p d c)
  case Nil
  then show ?case by (simp add: InferenceEngine_idle)
next
  case (Cons frames rest)
  have "IProcessor.running (p\<lparr>frameQueue := rest\<rparr>)" "frameQueue (p\<lparr>frameQueue := rest\<rparr>) = rest"
    "\<forall>frames \<in> set rest. processDetections cv t cl co (snd frames) (forward cv (snd frames)) \<noteq> None"
    using Cons.prems by simp_all
  from Cons.IH [OF this] Cons.prems(3) show ?case
    by (auto simp: InferenceEngine_step [OF Cons.prems(1,2)])
qed

text \<open>The detection pass on the concrete data, with the threshold below and at the score.\<close>

lemma row_kept:
  "processRow cv0 (2 / 5) [''person'', ''car''] [Scalar 0 0 255, Scalar 0 255 0] ([], frame0)
     [1 / 2, 1 / 2, 1 / 5, 1 / 5, 9 / 10, 1 / 2, 1 / 10] =
   Some ([Rect 1 0 0 0], frame0\<lparr>elems := [11, 11, 11, 11, 11, 11]\<rparr>)"
  by (simp add: processRow_def probability_index_def cv0_def frame0_def int_cast_def Let_def)

lemma detections_at_threshold:
  "processRow cv0 (1 / 2) [''person'', ''car''] [Scalar 0 0 255, Scalar 0 255 0] ([], frame0)
     [1 / 2, 1 / 2, 1 / 5, 1 / 5, 9 / 10, 1 / 2, 1 / 10] = Some ([], frame0)
   \<and> processDetections cv0 (1 / 2) [''person'', ''car''] [Scalar 0 0 255, Scalar 0 255 0] frame0
       (forward cv0 frame0) = Some ([], frame0)"
  by (simp add: processDetections_def processRow_def probability_index_def cv0_def Let_def)

text \<open>
  Claim C3, as amended. For the defogger and for the detection stage, from either program
  point of the loop: when the running flag is false the loop is left, whether or not the
  queue is empty, and the queue and the bus are untouched; when the stage is running and the
  queue is empty the thread blocks; when the stage is running and the queue is not empty the
  oldest pair is popped, the stage's transform is run on its second frame and the loop
  continues at its head with the result posted (for the detection stage, if the transform
  stays within the bounds of its tables).
\<close>

theorem processEvents_iteration:
  "(\<not> IProcessor.running p \<longrightarrow> Defogger_processEvents defog c (p, d) = Exited (p, d))
   \<and> (IProcessor.running p \<and> frameQueue p = [] \<longrightarrow>
        Defogger_processEvents defog c (p, d) = Blocked (p, d))
   \<and> (IProcessor.running p \<and> frameQueue p = frames # rest \<longrightarrow>
        Defogger_processEvents defog c (p, d) =
          Defogger_processEvents defog LoopHead
            (p\<lparr>frameQueue := rest\<rparr>,
             postEvent d \<lparr>type = FrameDefoggerReady, data = (fst frames, defog (snd frames))\<rparr>))
   \<and> (\<not> IProcessor.running p' \<longrightarrow>
        InferenceEngine_processEvents cv t cl co c (p', d') = Exited (p', d'))
   \<and> (IProcessor.running p' \<and> frameQueue p' = [] \<longrightarrow>
        InferenceEngine_processEvents cv t cl co c (p', d') = Blocked (p', d'))
   \<and> (IProcessor.running p' \<and> frameQueue p' = frames' # rest' \<longrightarrow>
        InferenceEngine_processEvents cv t cl co c (p', d') =
          (case processDetections cv t cl co (snd frames') (forward cv (snd frames')) of
             None \<Rightarrow> Undefined
           | Some r \<Rightarrow>
               InferenceEngine_processEvents cv t cl co LoopHead
                 (p'\<lparr>frameQueue := rest'\<rparr>,
                  postEvent d' \<lparr>type = FrameDetectionReady, data = (fst frames', snd r)\<rparr>)))"
  by (intro conjI impI; (elim conjE)?;
      (rule Defogger_stopped Defogger_idle Defogger_step
         InferenceEngine_stopped InferenceEngine_idle InferenceEngine_step; assumption))

theorem processEvents_iteration_witness:
  "Defogger_processEvents (\<lambda>m. m + 10) InWait
     (\<lparr>running = False, frameQueue = [(1, 1)], queueCondition = 2\<rparr>,
      EventDispatcher_new :: (int, unit) EventDispatcher) =
   Exited (\<lparr>running = False, frameQueue = [(1, 1)], queueCondition = 2\<rparr>, EventDispatcher_new)
   \<and> Defogger_processEvents (\<lambda>m. m + 10) InWait
     (\<lparr>running = True, frameQueue = [], queueCondition = 0\<rparr>,
      EventDispatcher_new :: (int, unit) EventDispatcher) =
   Blocked (\<lparr>running = True, frameQueue = [], queueCondition = 0\<rparr>, EventDispatcher_new)
   \<and> Defogger_processEvents (\<lambda>m. m + 10) InWait
     (\<lparr>running = True, frameQueue = [(1, 1), (2, 2)], queueCondition = 2\<rparr>,
      EventDispatcher_new :: (int, unit) EventDispatcher) =
   Defogger_processEvents (\<lambda>m. m + 10) LoopHead
     (\<lparr>running = True, frameQueue = [(2, 2)], queueCondition = 2\<rparr>,
      EventDispatcher_new\<lparr>eventQueue := [\<lparr>type = FrameDefoggerReady, data = (1, 11)\<rparr>],
        EventDispatcher.queueCondition := 1\<rparr>)
   \<and> InferenceEngine_processEvents cv0 (1 / 2) [''person'', ''car''] [Scalar 0 0 255, Scalar 0 255 0] InWait
     (\<lparr>running = False, frameQueue = [(frame0, frame0)], queueCondition = 1\<rparr>,
      EventDispatcher_new :: (nat Mat, unit) EventDispatcher) =
   Exited (\<lparr>running = False, frameQueue = [(frame0, frame0)], queueCondition = 1\<rparr>, EventDispatcher_new)
   \<and> InferenceEngine_processEvents cv0 (1 / 2) [''person'', ''car''] [Scalar 0 0 255, Scalar 0 255 0] InWait
     (\<lparr>running = True, frameQueue = [], queueCondition = 0\<rparr>,
      EventDispatcher_new :: (nat Mat, unit) EventDispatcher) =
   Blocked (\<lparr>running = True, frameQueue = [], queueCondition = 0\<rparr>, EventDispatcher_new)
   \<and> InferenceEngine_processEvents cv0 (2 / 5) [''person'', ''car''] [Scalar 0 0 255, Scalar 0 255 0] InWait
     (\<lparr>running = True, frameQueue = [(frame0, frame0)], queueCondition = 1\<rparr>,
      EventDispatcher_new :: (nat Mat, unit) EventDispatcher) =
   InferenceEngine_processEvents cv0 (2 / 5) [''person'', ''car''] [Scalar 0 0 255, Scalar 0 255 0] LoopHead
     (\<lparr>running = True, frameQueue = [], queueCondition = 1\<rparr>,
      EventDispatcher_new\<lparr>eventQueue :=
          [\<lparr>type = FrameDetectionReady, data = (frame0, frame0\<lparr>elems := [11, 11, 11, 11, 11, 11]\<rparr>)\<rparr>],
        EventDispatcher.queueCondition := 1\<rparr>)"
  using
    processEvents_iteration [of "\<lparr>running = False, frameQueue = [(1, 1)], queueCondition = 2\<rparr>" "\<lambda>m. m + 10" InWait
      "EventDispatcher_new :: (int, unit) EventDispatcher" "(1, 1)" "[]"
      "\<lparr>running = False, frameQueue = [(frame0, frame0)], queueCondition = 1\<rparr>"
      cv0 "1 / 2" "[''person'', ''car'']" "[Scalar 0 0 255, Scalar 0 255 0]"
      "EventDispatcher_new :: (nat Mat, unit) EventDispatcher" "(frame0, frame0)" "[]"]
    processEvents_iteration [of "\<lparr>running = True, frameQueue = [], queueCondition = 0\<rparr>" "\<lambda>m. m + 10" InWait
      "EventDispatcher_new :: (int, unit) EventDispatcher" "(1, 1)" "[]"
      "\<lparr>running = True, frameQueue = [], queueCondition = 0\<rparr>"
      cv0 "1 / 2" "[''person'', ''car'']" "[Scalar 0 0 255, Scalar 0 255 0]"
      "EventDispatcher_new :: (nat Mat, unit) EventDispatcher" "(frame0, frame0)" "[]"]
    processEvents_iteration [of "\<lparr>running = True, frameQueue = [(1, 1), (2, 2)], queueCondition = 2\<rparr>" "\<lambda>m. m + 10" InWait
      "EventDispatcher_new :: (int, unit) EventDispatcher" "(1, 1)" "[(2, 2)]"
      "\<lparr>running = True, frameQueue = [(frame0, frame0)], queueCondition = 1\<rparr>"
      cv0 "2 / 5" "[''person'', ''car'']" "[Scalar 0 0 255, Scalar 0 255 0]"
      "EventDispatcher_new :: (nat Mat, unit) EventDispatcher" "(frame0, frame0)" "[]"]
  by (simp add: postEvent_def EventDispatcher_new_def processDetections_def row_kept
      cv0_def [THEN arg_cong, of forward])

text \<open>
  Claim C3 as stated fails: a defogger that has been asked to stop while a pair is still in
  its queue leaves the loop on waking, without popping the pair and without posting.
\<close>

theorem processEvents_exits_with_pending_payload:
  "Defogger_processEvents id InWait
     (\<lparr>running = False, frameQueue = [(1, 1)], queueCondition = 2\<rparr>,
      EventDispatcher_new :: (int, unit) EventDispatcher) =
   Exited (\<lparr>running = False, frameQueue = [(1, 1)], queueCondition = 2\<rparr>, EventDispatcher_new)
   \<and> frameQueue \<lparr>running = False, frameQueue = [(1 :: int, 1 :: int)], queueCondition = 2\<rparr> \<noteq> []
   \<and> eventQueue (EventDispatcher_new :: (int, unit) EventDispatcher) = []"
  by (simp add: Defogger_processEvents.simps EventDispatcher_new_def)

text \<open>
  Claim C9. \<^verbatim>\<open>handleEvent\<close> of any stage returns the stage unchanged on an event of type
  \<^verbatim>\<open>InitialState\<close>; hence a stage whose accessible type is \<^verbatim>\<open>InitialState\<close> (the video
  processor) is left unchanged by every event, and nothing is ever pushed on its queue.
\<close>

theorem handleEvent_InitialState:
  "(type event = InitialState \<longrightarrow> handleEvent k event p = p)
   \<and> (getAccessibleType k = InitialState \<longrightarrow> handleEvent k event p = p)"
  by (simp add: handleEvent_def)

theorem handleEvent_InitialState_witness:
  "handleEvent Defogger \<lparr>type = InitialState, data = (1::nat, 1)\<rparr>
     \<lparr>running = True, frameQueue = [(0, 0)], queueCondition = 0\<rparr> =
   \<lparr>running = True, frameQueue = [(0, 0)], queueCondition = 0\<rparr>
   \<and> handleEvent VideoProcessor \<lparr>type = FrameCaptureReady, data = (1::nat, 1)\<rparr>
     \<lparr>running = True, frameQueue = [], queueCondition = 0\<rparr> =
   \<lparr>running = True, frameQueue = [], queueCondition = 0\<rparr>"
  using handleEvent_InitialState [of "\<lparr>type = InitialState, data = (1::nat, 1)\<rparr>" Defogger
        "\<lparr>running = True, frameQueue = [(0, 0)], queueCondition = 0\<rparr>"]
    handleEvent_InitialState [of "\<lparr>type = FrameCaptureReady, data = (1::nat, 1)\<rparr>" VideoProcessor
        "\<lparr>running = True, frameQueue = [], queueCondition = 0\<rparr>"]
  by simp

text \<open>
  Claim C10. A running defogger started on a queue of pairs posts, for each pair and in
  order, exactly one \<^verbatim>\<open>FrameDefoggerReady\<close> event carrying the first frame and the defogged
  second frame, whatever \<open>defog\<close> returns. A running detection stage posts, for each pair,
  exactly one \<^verbatim>\<open>FrameDetectionReady\<close> event carrying the first frame and the second frame
  as the detection pass left it, whether or not any detection passed the threshold
  (provided the pass stays within the bounds of its tables).
\<close>

theorem processEvents_posts_once_per_payload:
  "(IProcessor.running p \<longrightarrow>
      Defogger_processEvents defog LoopHead (p, d) =
        Blocked (p\<lparr>frameQueue := []\<rparr>,
          foldl postEvent d
            (map (\<lambda>frames. \<lparr>type = FrameDefoggerReady, data = (fst frames, defog (snd frames))\<rparr>)
               (frameQueue p))))
   \<and> (IProcessor.running p'
        \<and> (\<forall>frames \<in> set (frameQueue p').
              processDetections cv t cl co (snd frames) (forward cv (snd frames)) \<noteq> None) \<longrightarrow>
      InferenceEngine_processEvents cv t cl co LoopHead (p', d') =
        Blocked (p'\<lparr>frameQueue := []\<rparr>,
          foldl postEvent d'
            (map (\<lambda>frames. \<lparr>type = FrameDetectionReady,
                    data = (fst frames,
                      snd (the (processDetections cv t cl co (snd frames) (forward cv (snd frames)))))\<rparr>)
               (frameQueue p'))))"
  by (intro conjI impI; (elim conjE)?;
      (rule Defogger_run [OF _ refl] InferenceEngine_run [OF _ refl]; assumption))

theorem processEvents_posts_once_per_payload_witness:
  "Defogger_processEvents (\<lambda>m. m + 10) LoopHead
     (\<lparr>running = True, frameQueue = [(1, 1), (2, 2)], queueCondition = 2\<rparr>,
      EventDispatcher_new :: (int, unit) EventDispatcher) =
   Blocked (\<lparr>running = True, frameQueue = [], queueCondition = 2\<rparr>,
      EventDispatcher_new\<lparr>eventQueue :=
          [\<lparr>type = FrameDefoggerReady, data = (1, 11)\<rparr>, \<lparr>type = FrameDefoggerReady, data = (2, 12)\<rparr>],
        EventDispatcher.queueCondition := 2\<rparr>)
   \<and> InferenceEngine_processEvents cv0 (1 / 2) [''person'', ''car''] [Scalar 0 0 255, Scalar 0 255 0] LoopHead
     (\<lparr>running = True, frameQueue = [(frame0, frame0)], queueCondition = 1\<rparr>,
      EventDispatcher_new :: (nat Mat, unit) EventDispatcher) =
   Blocked (\<lparr>running = True, frameQueue = [], queueCondition = 1\<rparr>,
      EventDispatcher_new\<lparr>eventQueue := [\<lparr>type = FrameDetectionReady, data = (frame0, frame0)\<rparr>],
        EventDispatcher.queueCondition := 1\<rparr>)"
  using
    processEvents_posts_once_per_payload [of "\<lparr>running = True, frameQueue = [(1, 1), (2, 2)], queueCondition = 2\<rparr>" "\<lambda>m. m + 10"
      "EventDispatcher_new :: (int, unit) EventDispatcher"
      "\<lparr>running = True, frameQueue = [(frame0, frame0)], queueCondition = 1\<rparr>"
      cv0 "1 / 2" "[''person'', ''car'']" "[Scalar 0 0 255, Scalar 0 255 0]"
      "EventDispatcher_new :: (nat Mat, unit) EventDispatcher"]
    detections_at_threshold
  by (simp add: postEvent_def EventDispatcher_new_def)

text \<open>
  Claim C7. The test in the detection loop is \<^verbatim>\<open>confidence > confidenceThreshold\<close>: a
  detection whose confidence equals the threshold is not kept. With threshold 1/2 the row
  with best class score 1/2 adds no box and draws nothing, in \<open>processRow\<close> and in the whole
  of the detection pass over the network's output.
\<close>

theorem processRow_drops_confidence_equal_to_threshold:
  "processRow cv0 (1 / 2) [''person'', ''car''] [Scalar 0 0 255, Scalar 0 255 0] ([], frame0)
     [1 / 2, 1 / 2, 1 / 5, 1 / 5, 9 / 10, 1 / 2, 1 / 10] = Some ([], frame0)
   \<and> processDetections cv0 (1 / 2) [''person'', ''car''] [Scalar 0 0 255, Scalar 0 255 0] frame0
       (forward cv0 frame0) = Some ([], frame0)"
  by (simp add: processDetections_def processRow_def probability_index_def cv0_def Let_def)


section \<open>Properties of the command line\<close>

lemma validateArguments_invalid:
  assumes "(\<not> isValidUrl (modelPath c) \<and> fileExists (modelPath c) = exists_returns False)
         \<or> ((isValidUrl (modelPath c) \<or> fileExists (modelPath c) = exists_returns True)
             \<and> \<not> isValidUrl (videoPath c) \<and> fileExists (videoPath c) = exists_returns False)"
  shows "snd (validateArguments fileExists c) = Some False"
  using assms by (auto simp: validateArguments_def validatePath_def split: prod.splits)

lemma validateArguments_valid:
  assumes "isValidUrl (modelPath c) \<or> fileExists (modelPath c) = exists_returns True"
    and "isValidUrl (videoPath c) \<or> fileExists (videoPath c) = exists_returns True"
  shows "snd (validateArguments fileExists c) = Some True"
  using assms by (auto simp: validateArguments_def validatePath_def split: prod.splits)

text \<open>
  A threshold value on which \<^verbatim>\<open>std::stod\<close> throws \<^verbatim>\<open>std::invalid_argument\<close> is reported
  and replaced by 0.3; what \<^verbatim>\<open>main\<close> does next depends on the two paths only.
\<close>

lemma CommandLineArgs_new_invalid_threshold:
  assumes "collect_args argv ''--threshold'' = Some v" and "stod v = invalid_argument"
  shows "CommandLineArgs_new stod argv =
     ([InvalidThreshold],
      Some \<lparr>modelPath = (case collect_args argv ''--modelPath'' of Some p \<Rightarrow> p | None \<Rightarrow> []),
            videoPath = (case collect_args argv ''--videoPath'' of Some p \<Rightarrow> p | None \<Rightarrow> []),
            confidenceThreshold = 3 / 10\<rparr>)"
  using assms
  by (simp add: CommandLineArgs_new_def parseArguments_def Let_def split: option.splits)

lemma main_with_invalid_threshold:
  assumes "collect_args argv ''--threshold'' = Some v" and "stod v = invalid_argument"
    and "built = \<lparr>modelPath = (case collect_args argv ''--modelPath'' of Some p \<Rightarrow> p | None \<Rightarrow> []),
                  videoPath = (case collect_args argv ''--videoPath'' of Some p \<Rightarrow> p | None \<Rightarrow> []),
                  confidenceThreshold = 3 / 10\<rparr>"
    and "isValidUrl (modelPath built) \<or> fileExists (modelPath built) = exists_returns True"
    and "isValidUrl (videoPath built) \<or> fileExists (videoPath built) = exists_returns True"
  shows "main fileExists stod argv =
     map Print (InvalidThreshold # fst (validateArguments fileExists built))
       @ [New_VideoProcessor (videoPath built),
          New_Defogger,
          New_InferenceEngine
            (modelPath built @ ''/yolov3.cfg'') (modelPath built @ ''/yolov3.weights'')
            (modelPath built @ ''/coco_classes.txt'') (modelPath built @ ''/coco_colors.txt'')
            (3 / 10),
          New_GUIRenderer,
          RegisterHandler FrameCaptureReady Defogger,
          RegisterHandler FrameDefoggerReady InferenceEngine,
          RegisterHandler FrameDetectionReady GUIRenderer,
          Start GUIRenderer, Start InferenceEngine, Start Defogger, Start VideoProcessor,
          StartEventloop]"
proof -
  have new: "CommandLineArgs_new stod argv = ([InvalidThreshold], Some built)"
    using CommandLineArgs_new_invalid_threshold [of argv v stod] assms(1,2,3) by simp
  obtain out' r where v: "validateArguments fileExists built = (out', r)"
    by (cases "validateArguments fileExists built")
  have "snd (validateArguments fileExists built) = Some True"
    by (rule validateArguments_valid [OF assms(4,5)])
  with v have r: "r = Some True" by simp
  have thr: "confidenceThreshold built = 3 / 10" using assms(3) by simp
  show ?thesis using new v r thr by (simp add: main_def)
qed

text \<open>
  Claim C8, as amended. The program is started with its name and further arguments; the
  command-line object is built (\<^verbatim>\<open>std::stod\<close> does not throw \<^verbatim>\<open>std::out_of_range\<close>); the
  calls of \<^verbatim>\<open>std::filesystem::exists\<close> that are made return; and the model path is neither
  a well-formed URL nor an existing path, or the model path is valid and the video path is
  neither. Then \<^verbatim>\<open>main\<close> prints the usage line and returns 1, and it has done nothing else
  than print: no stage is constructed or started.
\<close>

theorem main_rejects_invalid_path:
  assumes "argv = programName # args"
    and "CommandLineArgs_new stod argv = (out, Some cmdArgs)"
    and "(\<not> isValidUrl (modelPath cmdArgs) \<and> fileExists (modelPath cmdArgs) = exists_returns False)
       \<or> ((isValidUrl (modelPath cmdArgs) \<or> fileExists (modelPath cmdArgs) = exists_returns True)
           \<and> \<not> isValidUrl (videoPath cmdArgs) \<and> fileExists (videoPath cmdArgs) = exists_returns False)"
  shows "main fileExists stod argv =
     map Print (out @ fst (validateArguments fileExists cmdArgs))
       @ [Print (Usage programName), Return 1]"
proof -
  obtain out' r where v: "validateArguments fileExists cmdArgs = (out', r)"
    by (cases "validateArguments fileExists cmdArgs")
  have "snd (validateArguments fileExists cmdArgs) = Some False"
    by (rule validateArguments_invalid [OF assms(3)])
  with v have "r = Some False" by simp
  with assms(1,2) v show ?thesis by (simp add: main_def)
qed

theorem main_rejects_invalid_path_witness:
  "main (\<lambda>path. exists_returns False) (\<lambda>s. invalid_argument)
     [''prog'', ''--modelPath:nowhere'', ''--videoPath:v.mp4''] =
     [Print (DoesNotExist ''nowhere''), Print (Usage ''prog''), Return 1]
   \<and> main (\<lambda>path. exists_returns (path = ''models'')) (\<lambda>s. stod_value (1 / 2))
     [''prog'', ''--modelPath:models'', ''--videoPath:v.mp4'', ''--threshold:0.5''] =
     [Print (ValidThreshold (1 / 2)), Print (ValidFile ''models''), Print (DoesNotExist ''v.mp4''),
      Print (Usage ''prog''), Return 1]"
proof -
  let ?argv1 = "[''prog'', ''--modelPath:nowhere'', ''--videoPath:v.mp4'']"
  let ?c1 = "\<lparr>modelPath = ''nowhere'', videoPath = ''v.mp4'', confidenceThreshold = 3 / 10\<rparr>"
  let ?argv2 = "[''prog'', ''--modelPath:models'', ''--videoPath:v.mp4'', ''--threshold:0.5'']"
  let ?c2 = "\<lparr>modelPath = ''models'', videoPath = ''v.mp4'', confidenceThreshold = 1 / 2\<rparr>"
  have built1: "CommandLineArgs_new (\<lambda>s. invalid_argument) ?argv1 = ([], Some ?c1)"
    by (simp add: CommandLineArgs_new_def parseArguments_def collect_args_def split_arg_def)
  have built2: "CommandLineArgs_new (\<lambda>s. stod_value (1 / 2)) ?argv2 = ([ValidThreshold (1 / 2)], Some ?c2)"
    by (simp add: CommandLineArgs_new_def parseArguments_def collect_args_def split_arg_def)
  have nourl: "\<not> isValidUrl ''nowhere''" "\<not> isValidUrl ''models''" "\<not> isValidUrl ''v.mp4''"
    by (simp_all add: isValidUrl_def)
  have invalid1: "(\<not> isValidUrl (modelPath ?c1) \<and> exists_returns False = exists_returns False)
       \<or> ((isValidUrl (modelPath ?c1) \<or> exists_returns False = exists_returns True)
           \<and> \<not> isValidUrl (videoPath ?c1) \<and> exists_returns False = exists_returns False)"
    using nourl by simp
  have invalid2: "(\<not> isValidUrl (modelPath ?c2) \<and> exists_returns (modelPath ?c2 = ''models'') = exists_returns False)
       \<or> ((isValidUrl (modelPath ?c2) \<or> exists_returns (modelPath ?c2 = ''models'') = exists_returns True)
           \<and> \<not> isValidUrl (videoPath ?c2) \<and> exists_returns (videoPath ?c2 = ''models'') = exists_returns False)"
    using nourl by simp
  show ?thesis
    using main_rejects_invalid_path [OF refl built1 invalid1]
      main_rejects_invalid_path [OF refl built2 invalid2]
    by (simp add: validateArguments_def validatePath_def nourl)
qed

text \<open>
  Claim C8 as stated fails for an invalid threshold: \<^verbatim>\<open>std::stod("abc")\<close> throws
  \<^verbatim>\<open>std::invalid_argument\<close>, \<^verbatim>\<open>parseArguments\<close> catches it, reports it and keeps the
  threshold 0.3, and with both paths valid \<^verbatim>\<open>main\<close> goes on to construct and start the four
  stages and to call the event loop.
\<close>

theorem main_accepts_invalid_threshold:
  "main (\<lambda>path. exists_returns (path = ''models''))
     (\<lambda>s. if s = ''abc'' then invalid_argument else out_of_range)
     [''prog'', ''--modelPath:models'', ''--videoPath:http://host/v.mp4'', ''--threshold:abc''] =
     [Print InvalidThreshold, Print (ValidFile ''models''), Print (ValidUrl ''http://host/v.mp4''),
      New_VideoProcessor ''http://host/v.mp4'', New_Defogger,
      New_InferenceEngine ''models/yolov3.cfg'' ''models/yolov3.weights''
        ''models/coco_classes.txt'' ''models/coco_colors.txt'' (3 / 10),
      New_GUIRenderer,
      RegisterHandler FrameCaptureReady Defogger,
      RegisterHandler FrameDefoggerReady InferenceEngine,
      RegisterHandler FrameDetectionReady GUIRenderer,
      Start GUIRenderer, Start InferenceEngine, Start Defogger, Start VideoProcessor,
      StartEventloop]"
  by (simp add: main_def CommandLineArgs_new_def parseArguments_def collect_args_def split_arg_def
      validateArguments_def validatePath_def isValidUrl_def url_rest_def isspace_def)

section \<open>Properties of the atmospheric light\<close>

lemma foldl_nth_upt:
  "foldl (\<lambda>acc i. g acc (xs ! i)) a [0..<length xs] = foldl g a xs"
proof (induction xs rule: rev_induct)
  case Nil
  then show ?case by simp
next
  case (snoc x xs)
  have "foldl (\<lambda>acc i. g acc ((xs @ [x]) ! i)) a [0..<length xs] =
        foldl (\<lambda>acc i. g acc (xs ! i)) a [0..<length xs]"
    by (rule foldl_cong) (simp_all add: nth_append)
  with snoc show ?case by simp
qed

lemma foldl_fadd_pixels:
  fixes src :: "Vec3f list"
  shows "foldl (\<lambda>(a0, a1, a2) j. case src ! j of (v0, v1, v2) \<Rightarrow> (fadd a0 v0, fadd a1 v1, fadd a2 v2))
     (a0, a1, a2) sel =
   (foldl fadd a0 (map (\<lambda>j. fst (src ! j)) sel),
    foldl fadd a1 (map (\<lambda>j. fst (snd (src ! j))) sel),
    foldl fadd a2 (map (\<lambda>j. snd (snd (src ! j))) sel))"
  by (induction sel arbitrary: a0 a1 a2) (simp_all add: split_beta)

lemma permutation_of_upt:
  assumes "mset idx = mset [0..<n]"
  shows "length idx = n" and "distinct idx" and "set idx = {0..<n}"
proof -
  show "length idx = n" using mset_eq_length [OF assms] by simp
  show "distinct idx" using mset_eq_imp_distinct_iff [OF assms] by simp
  show "set idx = {0..<n}" using mset_eq_setD [OF assms] by simp
qed

lemma top_of_sorted:
  fixes dark :: "real list"
  assumes "sorted_wrt (\<lambda>i j. \<not> dark ! j < dark ! i) idx"
    and "i \<in> set (drop m idx)" and "j \<in> set idx" and "j \<notin> set (drop m idx)"
  shows "dark ! j \<le> dark ! i"
proof -
  have "idx = take m idx @ drop m idx" by simp
  then have s: "sorted_wrt (\<lambda>i j. \<not> dark ! j < dark ! i) (take m idx @ drop m idx)"
    using assms(1) by simp
  have "j \<in> set (take m idx)"
    using assms(3,4) set_append [of "take m idx" "drop m idx"] by auto
  with s assms(2) have "\<not> dark ! i < dark ! j"
    unfolding sorted_wrt_append by blast
  then show ?thesis by simp
qed

text \<open>What the contract of the library routine gives for \<open>argsort\<close>.\<close>

lemma argsort_permutation:
  "std_sort_contract std_sort \<Longrightarrow> mset (argsort std_sort pArray) = mset [0..<length pArray]"
  unfolding argsort_def Let_def std_sort_contract_def by blast

lemma argsort_sorted:
  "std_sort_contract std_sort \<Longrightarrow>
   sorted_wrt (\<lambda>i j. \<not> pArray ! j < pArray ! i) (argsort std_sort pArray)"
  unfolding argsort_def Let_def std_sort_contract_def by blast

text \<open>Sorting by insertion meets the contract.\<close>

lemma mset_insert_sorted: "mset (insert_sorted lt a bs) = add_mset a (mset bs)"
  by (induction bs) simp_all

lemma mset_insertion_sort: "mset (insertion_sort lt as) = mset as"
  by (induction as) (simp_all add: insertion_sort_def mset_insert_sorted)

lemma set_insert_sorted: "set (insert_sorted lt a bs) = insert a (set bs)"
  by (induction bs) auto

lemma sorted_insert_sorted:
  fixes key :: "nat \<Rightarrow> real"
  assumes "sorted_wrt (\<lambda>i j. \<not> key j < key i) bs"
  shows "sorted_wrt (\<lambda>i j. \<not> key j < key i) (insert_sorted (\<lambda>i j. key i < key j) a bs)"
  using assms
proof (induction bs)
  case Nil
  then show ?case by simp
next
  case (Cons b bs)
  show ?case
  proof (cases "key a < key b")
    case True
    with Cons.prems show ?thesis by (auto simp: not_less)
  next
    case False
    with Cons show ?thesis by (auto simp: set_insert_sorted not_less)
  qed
qed

lemma sorted_insertion_sort:
  fixes key :: "nat \<Rightarrow> real"
  shows "sorted_wrt (\<lambda>i j. \<not> key j < key i) (insertion_sort (\<lambda>i j. key i < key j) as)"
proof (induction as)
  case Nil
  then show ?case by (simp add: insertion_sort_def)
next
  case (Cons a as)
  then show ?case
    using sorted_insert_sorted [of key "insertion_sort (\<lambda>i j. key i < key j) as" a]
    by (simp add: insertion_sort_def)
qed

lemma insertion_sort_contract: "std_sort_contract insertion_sort"
  unfolding std_sort_contract_def by (simp add: mset_insertion_sort sorted_insertion_sort)

lemma insertion_sort_ascending:
  "sorted_wrt lt as \<Longrightarrow> insertion_sort lt as = as"
proof (induction as)
  case Nil
  then show ?case by (simp add: insertion_sort_def)
next
  case (Cons a as)
  then have "insertion_sort lt as = as" by simp
  then have "insertion_sort lt (a # as) = insert_sorted lt a as" by (simp add: insertion_sort_def)
  with Cons.prems show ?case by (cases as) simp_all
qed

lemma sorted_dark0: "sorted_wrt (\<lambda>i j. elems dark0 ! i < elems dark0 ! j) [0..<2000]"
  by (simp add: sorted_wrt_iff_nth_less dark0_def)

lemma brightest_of_dark0: "drop (2000 - 2) [0..<2000] = [1998, 1999]"
proof -
  have "drop (2000 - 2) [0..<2000] = [1998..<2000]" by simp
  also have "\<dots> = [1998, 1999]" by (simp add: upt_rec)
  finally show ?thesis .
qed

lemma pixels_of_source0: "elems source0 ! 1998 = (1998 / 2000, (1998 + 2000) / 4000, 1)"
    "elems source0 ! 1999 = (1999 / 2000, (1999 + 2000) / 4000, 1)"
    by (simp_all add: source0_def)


lemma argsort_dark0: "argsort insertion_sort (elems dark0) = [0..<2000]"
proof -
  have "length (elems dark0) = 2000" by (simp add: dark0_def)
  then have "argsort insertion_sort (elems dark0) =
      insertion_sort (\<lambda>i j. elems dark0 ! i < elems dark0 ! j) [0..<2000]"
    unfolding argsort_def Let_def by (simp only:)
  also have "\<dots> = [0..<2000]"
    by (rule insertion_sort_ascending [OF sorted_dark0])
  finally show ?thesis .
qed

text \<open>
  Claim C5. Let the source and its dark channel have the same number \<open>total_pixels\<close> of
  pixels, at least one, and let \<^verbatim>\<open>std::sort\<close> keep its contract. With
  \<open>k = max (total_pixels div 1000) 1\<close>, the indices \<open>brightest\<close> that \<open>atmLight\<close> takes from
  the end of \<open>argsort\<close>'s result are \<open>k\<close> distinct pixels, every pixel outside them has a
  dark-channel value no greater than any of theirs, and the result, starting from zero, is
  in each of the three channels the average as the code computes it in float arithmetic:
  the source values of the pixels of \<open>brightest\<close> added up one after the other with the
  float addition, and the sum divided by \<open>k\<close> with the float division.
\<close>

theorem atmLight_brightest_average:
  assumes "Mat_ok pSource" and "Mat_ok pDark"
    and "rows pDark * cols pDark = rows pSource * cols pSource"
    and "0 < rows pSource * cols pSource"
    and "std_sort_contract std_sort"
  shows
    "(let total_pixels = rows pSource * cols pSource;
          k = max (total_pixels div 1000) 1;
          brightest = drop (total_pixels - k) (argsort std_sort (elems pDark))
      in length brightest = k \<and> distinct brightest \<and> set brightest \<subseteq> {0..<total_pixels}
         \<and> (\<forall>i \<in> set brightest. \<forall>j < total_pixels. j \<notin> set brightest \<longrightarrow>
               elems pDark ! j \<le> elems pDark ! i)
         \<and> atmLight fadd fdiv std_sort pSource pDark (0, 0, 0) =
             Some (fdiv (foldl fadd 0 (map (\<lambda>i. fst (elems pSource ! i)) brightest)) (real k),
                   fdiv (foldl fadd 0 (map (\<lambda>i. fst (snd (elems pSource ! i))) brightest)) (real k),
                   fdiv (foldl fadd 0 (map (\<lambda>i. snd (snd (elems pSource ! i))) brightest)) (real k)))"
proof -
  define n where "n = rows pSource * cols pSource"
  define k where "k = max (n div 1000) 1"
  define idx where "idx = argsort std_sort (elems pDark)"
  define sel where "sel = drop (n - k) idx"
  have len_dark: "length (elems pDark) = n"
    using assms(2,3) by (simp add: Mat_ok_def n_def)
  have perm: "mset idx = mset [0..<n]"
    using argsort_permutation [OF assms(5), of "elems pDark"] by (simp add: idx_def len_dark)
  have sorted: "sorted_wrt (\<lambda>i j. \<not> elems pDark ! j < elems pDark ! i) idx"
    using argsort_sorted [OF assms(5), of "elems pDark"] by (simp add: idx_def)
  note p = permutation_of_upt [OF perm]
  have "0 < n" using assms(4) by (simp add: n_def)
  then have k_le: "k \<le> n" and k_pos: "0 < k" by (auto simp: k_def)
  have len_sel: "length sel = k" using k_le p(1) by (simp add: sel_def)
  have dist_sel: "distinct sel" using p(2) by (simp add: sel_def)
  have sub_sel: "set sel \<subseteq> {0..<n}" using p(3) set_drop_subset [of "n - k" idx] by (auto simp: sel_def)
  have top: "\<forall>i \<in> set sel. \<forall>j < n. j \<notin> set sel \<longrightarrow> elems pDark ! j \<le> elems pDark ! i"
  proof (intro ballI allI impI)
    fix i j assume "i \<in> set sel" "j < n" "j \<notin> set sel"
    moreover from \<open>j < n\<close> have "j \<in> set idx" using p(3) by simp
    ultimately show "elems pDark ! j \<le> elems pDark ! i"
      using top_of_sorted [of "elems pDark" idx i "n - k" j] sorted
      by (simp add: sel_def)
  qed
  have fold_sel:
    "foldl (\<lambda>(a0, a1, a2) i. case elems pSource ! (sel ! i) of
              (v0, v1, v2) \<Rightarrow> (fadd a0 v0, fadd a1 v1, fadd a2 v2)) (0, 0, 0) [0..<k] =
     (foldl fadd 0 (map (\<lambda>j. fst (elems pSource ! j)) sel),
      foldl fadd 0 (map (\<lambda>j. fst (snd (elems pSource ! j))) sel),
      foldl fadd 0 (map (\<lambda>j. snd (snd (elems pSource ! j))) sel))"
    using foldl_nth_upt [of "\<lambda>(a0, a1, a2) j. case elems pSource ! j of
              (v0, v1, v2) \<Rightarrow> (fadd a0 v0, fadd a1 v1, fadd a2 v2)" sel "(0, 0, 0)"]
      foldl_fadd_pixels [of fadd "elems pSource" 0 0 0 sel]
    by (simp add: len_sel split_def)
  have atm: "atmLight fadd fdiv std_sort pSource pDark (0, 0, 0) =
      Some (fdiv (foldl fadd 0 (map (\<lambda>i. fst (elems pSource ! i)) sel)) (real k),
            fdiv (foldl fadd 0 (map (\<lambda>i. fst (snd (elems pSource ! i))) sel)) (real k),
            fdiv (foldl fadd 0 (map (\<lambda>i. snd (snd (elems pSource ! i))) sel)) (real k))"
  proof -
    have unfolded: "atmLight fadd fdiv std_sort pSource pDark (0, 0, 0) =
      (if rows pDark * cols pDark \<noteq> n then None
       else if n < k then None
       else (case foldl (\<lambda>(a0, a1, a2) i. case elems pSource ! (sel ! i) of
                          (v0, v1, v2) \<Rightarrow> (fadd a0 v0, fadd a1 v1, fadd a2 v2)) (0, 0, 0) [0..<k] of
               (a0, a1, a2) \<Rightarrow> Some (fdiv a0 (real k), fdiv a1 (real k), fdiv a2 (real k))))"
      unfolding atmLight_def Let_def sel_def idx_def k_def n_def by (rule refl)
    have "rows pDark * cols pDark = n" using assms(3) by (simp add: n_def)
    moreover have "\<not> n < k" using k_le by simp
    ultimately show ?thesis by (simp add: unfolded fold_sel)
  qed
  have "length sel = k \<and> distinct sel \<and> set sel \<subseteq> {0..<n}
      \<and> (\<forall>i \<in> set sel. \<forall>j < n. j \<notin> set sel \<longrightarrow> elems pDark ! j \<le> elems pDark ! i)
      \<and> atmLight fadd fdiv std_sort pSource pDark (0, 0, 0) =
          Some (fdiv (foldl fadd 0 (map (\<lambda>i. fst (elems pSource ! i)) sel)) (real k),
                fdiv (foldl fadd 0 (map (\<lambda>i. fst (snd (elems pSource ! i))) sel)) (real k),
                fdiv (foldl fadd 0 (map (\<lambda>i. snd (snd (elems pSource ! i))) sel)) (real k))"
    using len_sel dist_sel sub_sel top atm by (intro conjI)
  then show ?thesis
    unfolding Let_def sel_def idx_def k_def n_def .
qed

theorem atmLight_brightest_average_witness:
  "atmLight fadd_coarse fdiv_coarse insertion_sort source0 dark0 (0, 0, 0) = Some (3 / 4, 3 / 4, 1)"
proof -
  have h1: "Mat_ok source0" and h2: "Mat_ok dark0" by (simp_all add: Mat_ok_def source0_def dark0_def)
  have h3: "rows dark0 * cols dark0 = rows source0 * cols source0" by (simp add: source0_def dark0_def)
  have h4: "0 < rows source0 * cols source0" by (simp add: source0_def)
  have total: "rows source0 * cols source0 = 2000" by (simp add: source0_def)
  have k: "max (2000 div 1000) 1 = (2 :: nat)" by simp
  have "atmLight fadd_coarse fdiv_coarse insertion_sort source0 dark0 (0, 0, 0) =
      Some (fdiv_coarse (foldl fadd_coarse 0 (map (\<lambda>i. fst (elems source0 ! i)) [1998, 1999])) (real 2),
            fdiv_coarse (foldl fadd_coarse 0 (map (\<lambda>i. fst (snd (elems source0 ! i))) [1998, 1999])) (real 2),
            fdiv_coarse (foldl fadd_coarse 0 (map (\<lambda>i. snd (snd (elems source0 ! i))) [1998, 1999])) (real 2))"
    using atmLight_brightest_average [OF h1 h2 h3 h4 insertion_sort_contract, of fadd_coarse fdiv_coarse,
        unfolded Let_def total k argsort_dark0 brightest_of_dark0]
    by (elim conjE)
  then show ?thesis
    by (simp add: pixels_of_source0 fadd_coarse_def fdiv_coarse_def)
qed

end
